theory Spec2Isabelle
  imports Complex_Main
begin

section \<open>Relational operators of the stored procedures\<close>

text \<open>
  The two ways a statement of the procedures can fail: a name that does not resolve, and
  \<open>LOG\<close> of a value that is not positive.
\<close>

datatype sql_error = Unrecognized_name string | Log_undefined

text \<open>Running a list of fallible steps: the first failure is the failure of the whole.\<close>

fun collect :: "('e + 'a) list \<Rightarrow> 'e + 'a list" where
  "collect [] = Inr []"
| "collect (x # xs) =
     (case x of
        Inl e \<Rightarrow> Inl e
      | Inr v \<Rightarrow> (case collect xs of Inl e \<Rightarrow> Inl e | Inr vs \<Rightarrow> Inr (v # vs)))"

text \<open>
  A table is the list of its rows. The view \<open>recommendations.vw_item_groups\<close> is created
  outside the notebook; it is the input of the model, a table of rows
  \<open>(item_Id, group_Id)\<close>. Its two columns and the parameters of the procedures are taken
  to be non-NULL; the type of \<open>item_Id\<close> is any linearly ordered type (the procedure
  compares two of them with \<open><\<close>), the type of \<open>group_Id\<close> is arbitrary. The engine
  fixes no row order: where a theorem below gives a table as a list, the order is that of
  the model.
\<close>

text \<open>\<open>SELECT key, agg(...) FROM rows GROUP BY key\<close>: one row for each distinct key.\<close>

definition group_by :: "('r \<Rightarrow> 'k) \<Rightarrow> ('r list \<Rightarrow> 'v) \<Rightarrow> 'r list \<Rightarrow> ('k \<times> 'v) list" where
  "group_by key agg rows =
     map (\<lambda>k. (k, agg (filter (\<lambda>r. key r = k) rows))) (remdups (map key rows))"

text \<open>\<open>COUNT(col)\<close> over the rows of a group (no NULLs), an INT64.\<close>

definition count_rows :: "'r list \<Rightarrow> int" where
  "count_rows rows = int (length rows)"

text \<open>\<open>SUM(col)\<close> over a table: NULL for the empty table.\<close>

definition sum_column :: "int list \<Rightarrow> int option" where
  "sum_column xs = (if xs = [] then None else Some (sum_list xs))"

section \<open>sp_ComputePMI, statement by statement\<close>

text \<open>The common table expression \<open>valid_items\<close>: rows \<open>(item_Id, item_frequency)\<close>.\<close>

definition valid_items :: "int \<Rightarrow> ('i \<times> 'g) list \<Rightarrow> ('i \<times> int) list" where
  "valid_items min_item_frequency vw_item_groups =
     filter (\<lambda>(item_Id, item_frequency). item_frequency \<ge> min_item_frequency)
       (group_by fst count_rows vw_item_groups)"

text \<open>
  The common table expression \<open>valid_groups\<close>: rows \<open>(group_Id, group_size)\<close>. Its
  \<open>WHERE item_Id IN (SELECT item_Id FROM valid_items)\<close> comes before the grouping.
\<close>

definition valid_groups :: "int \<Rightarrow> int \<Rightarrow> ('i \<times> 'g) list \<Rightarrow> ('g \<times> int) list" where
  "valid_groups min_item_frequency max_group_size vw_item_groups =
     filter (\<lambda>(group_Id, group_size). 2 \<le> group_size \<and> group_size \<le> max_group_size)
       (group_by snd count_rows
          (filter (\<lambda>(item_Id, group_Id).
                     item_Id \<in> set (map fst (valid_items min_item_frequency vw_item_groups)))
             vw_item_groups))"

text \<open>The table \<open>recommendations.valid_item_groups\<close>: rows \<open>(item_Id, group_Id)\<close>.\<close>

definition valid_item_groups :: "int \<Rightarrow> int \<Rightarrow> ('i \<times> 'g) list \<Rightarrow> ('i \<times> 'g) list" where
  "valid_item_groups min_item_frequency max_group_size vw_item_groups =
     filter (\<lambda>(item_Id, group_Id).
               item_Id \<in> set (map fst (valid_items min_item_frequency vw_item_groups))
             \<and> group_Id \<in> set (map fst
                  (valid_groups min_item_frequency max_group_size vw_item_groups)))
       vw_item_groups"

text \<open>
  The first \<open>recommendations.item_cooc\<close> (pairwise co-occurrence): rows
  \<open>((item1_Id, item2_Id), cooc)\<close>. The inner select is the self-join of
  \<open>valid_item_groups\<close> on equal groups and \<open>a.item_Id < b.item_Id\<close>, each joined row
  carrying \<open>1\<close>; the outer select sums per pair.
\<close>

definition cooc_join :: "('i::linorder \<times> 'g) list \<Rightarrow> (('i \<times> 'i) \<times> int) list" where
  "cooc_join vig =
     map (\<lambda>(a, b). ((fst a, fst b), 1))
       (filter (\<lambda>(a, b). snd a = snd b \<and> fst a < fst b) (List.product vig vig))"

definition pairwise_cooc :: "('i::linorder \<times> 'g) list \<Rightarrow> (('i \<times> 'i) \<times> int) list" where
  "pairwise_cooc vig = group_by fst (\<lambda>rows. sum_list (map snd rows)) (cooc_join vig)"

text \<open>The table \<open>recommendations.item_frequency\<close>: rows \<open>(item_Id, frequency)\<close>.\<close>

definition item_frequency :: "('i \<times> 'g) list \<Rightarrow> ('i \<times> int) list" where
  "item_frequency vig = group_by fst count_rows vig"

text \<open>\<open>SET total = (SELECT SUM(frequency) FROM recommendations.item_frequency)\<close>.\<close>

definition total_frequency :: "('i \<times> int) list \<Rightarrow> int option" where
  "total_frequency freq = sum_column (map snd freq)"

text \<open>
  The second \<open>recommendations.item_cooc\<close>: the pairwise rows \<open>UNION ALL\<close> one row
  \<open>((item_Id, item_Id), frequency)\<close> for each row of \<open>item_frequency\<close>.
\<close>

definition add_self_pairs ::
  "(('i \<times> 'i) \<times> int) list \<Rightarrow> ('i \<times> int) list \<Rightarrow> (('i \<times> 'i) \<times> int) list" where
  "add_self_pairs item_cooc freq =
     item_cooc @ map (\<lambda>(item_Id, frequency). ((item_Id, item_Id), frequency)) freq"


text \<open>
  Counts and sums are INT64 in the engine; they are modelled as unbounded integers (a count
  is bounded by the number of rows of the view).

  FLOAT64 is a type parameter \<open>'f\<close> with its own \<open>+\<close>, \<open>-\<close> and \<open>*\<close>, of which no
  law is assumed; \<open>lg x\<close> stands for the engine's \<open>LOG(x, 2)\<close> at a positive INT64 and
  \<open>cast\<close> for the coercion of an INT64 to FLOAT64. \<open>LOG\<close> fails at zero and at negative
  values, and is NULL at NULL.
\<close>

definition pmi ::
  "(int \<Rightarrow> 'f::{plus,minus}) \<Rightarrow> int \<Rightarrow> int \<Rightarrow> int \<Rightarrow> int option \<Rightarrow> sql_error + 'f option" where
  "pmi lg cooc frequency1 frequency2 total' =
     (if cooc \<le> 0 \<or> frequency1 \<le> 0 \<or> frequency2 \<le> 0
         \<or> (case total' of None \<Rightarrow> False | Some t \<Rightarrow> t \<le> 0)
      then Inl Log_undefined
      else case total' of
             None \<Rightarrow> Inr None
           | Some t \<Rightarrow> Inr (Some (lg cooc - lg frequency1 - lg frequency2 + lg t)))"

text \<open>
  The last \<open>recommendations.item_cooc\<close>: rows \<open>((item1_Id, item2_Id), cooc, pmi)\<close>, from
  \<open>item_cooc a JOIN item_frequency b ON a.item1_Id = b.item_Id
  JOIN item_frequency c ON a.item2_Id = c.item_Id\<close>.
\<close>

definition compute_pmi ::
  "(int \<Rightarrow> 'f::{plus,minus}) \<Rightarrow> int option \<Rightarrow> ('i \<times> int) list \<Rightarrow> (('i \<times> 'i) \<times> int) list
     \<Rightarrow> sql_error + (('i \<times> 'i) \<times> int \<times> 'f option) list" where
  "compute_pmi lg total' freq item_cooc =
     collect
       (map (\<lambda>((a, b), c).
               case pmi lg (snd a) (snd b) (snd c) total' of
                 Inl e \<Rightarrow> Inl e
               | Inr p \<Rightarrow> Inr (fst a, snd a, p))
          (filter (\<lambda>((a, b), c). fst (fst a) = fst b \<and> snd (fst a) = fst c)
             (List.product (List.product item_cooc freq) freq)))"

subsection \<open>The negative-sample block\<close>

text \<open>
  A name of a script variable is resolved in the scope of the procedure: its parameters and
  the variables it declares.
\<close>

definition variable :: "(string \<times> 'a) list \<Rightarrow> string \<Rightarrow> sql_error + 'a" where
  "variable scope name =
     (case map_of scope name of None \<Rightarrow> Inl (Unrecognized_name name) | Some v \<Rightarrow> Inr v)"

text \<open>
  \<open>sp_ComputePMI(IN min_item_frequency INT64, IN max_group_size INT64)\<close> with
  \<open>DECLARE total INT64\<close>.
\<close>

definition sp_ComputePMI_scope :: "int \<Rightarrow> int \<Rightarrow> int option \<Rightarrow> (string \<times> int option) list" where
  "sp_ComputePMI_scope min_item_frequency max_group_size total' =
     [(''min_item_frequency'', Some min_item_frequency),
      (''max_group_size'', Some max_group_size),
      (''total'', total')]"

text \<open>
  The common table expressions of the block are kept with their column names, since the
  block selects columns by name: a table is its column names and its rows, a column is
  resolved to its position before any row is read.
\<close>

type_synonym 'a named_table = "string list \<times> 'a list list"

fun column_position :: "string list \<Rightarrow> string \<Rightarrow> nat option" where
  "column_position [] name = None"
| "column_position (c # cs) name =
     (if c = name then Some 0 else map_option Suc (column_position cs name))"

definition column :: "'a named_table \<Rightarrow> string \<Rightarrow> sql_error + nat" where
  "column t name =
     (case column_position (fst t) name of
        None \<Rightarrow> Inl (Unrecognized_name name)
      | Some n \<Rightarrow> Inr n)"

text \<open>
  \<open>ordered_items\<close>: rows \<open>(number, item_Id)\<close> with
  \<open>ROW_NUMBER() OVER (ORDER BY frequency DESC)\<close>. The engine breaks ties as it likes;
  the order taken here is the stable one.
\<close>

definition ordered_items :: "('i \<times> int) list \<Rightarrow> (int \<times> 'i) list" where
  "ordered_items freq =
     zip (map int [1 ..< Suc (length freq)])
       (map fst (sort_key (\<lambda>(item_Id, frequency). - frequency) freq))"

definition top_items :: "int \<Rightarrow> ('i \<times> int) list \<Rightarrow> 'i named_table" where
  "top_items negative_sample_size freq =
     ([''item_Id''],
      map (\<lambda>(number, item_Id). [item_Id])
        (filter (\<lambda>(number, item_Id). number \<le> negative_sample_size) (ordered_items freq)))"

text \<open>
  \<open>negative_samples\<close>: \<open>SELECT a.item as item1_Id, b.item as item2_Id, 1 as cooc
  FROM top_items a JOIN top_items b ON a.item_Id < b.item_Id\<close>.
\<close>

definition negative_samples :: "'i::linorder named_table \<Rightarrow> sql_error + (('i \<times> 'i) \<times> int) list" where
  "negative_samples top_table =
     (case column top_table ''item'' of
        Inl e \<Rightarrow> Inl e
      | Inr item \<Rightarrow>
          (case column top_table ''item_Id'' of
             Inl e \<Rightarrow> Inl e
           | Inr item_Id \<Rightarrow>
               Inr (map (\<lambda>(a, b). ((a ! item, b ! item), 1))
                      (filter (\<lambda>(a, b). a ! item_Id < b ! item_Id)
                         (List.product (snd top_table) (snd top_table))))))"

text \<open>\<open>merged\<close> and the final select of the block: \<open>MAX(cooc)\<close> per pair.\<close>

definition merge_max ::
  "(('i \<times> 'i) \<times> int) list \<Rightarrow> (('i \<times> 'i) \<times> int) list \<Rightarrow> (('i \<times> 'i) \<times> int) list" where
  "merge_max item_cooc negatives =
     group_by fst (\<lambda>rows. Max (set (map snd rows))) (item_cooc @ negatives)"

definition add_negative_samples ::
  "int \<Rightarrow> ('i::linorder \<times> int) list \<Rightarrow> (('i \<times> 'i) \<times> int) list
     \<Rightarrow> sql_error + (('i \<times> 'i) \<times> int) list" where
  "add_negative_samples negative_sample_size freq item_cooc =
     (case negative_samples (top_items negative_sample_size freq) of
        Inl e \<Rightarrow> Inl e
      | Inr negatives \<Rightarrow> Inr (merge_max item_cooc negatives))"

subsection \<open>The procedure\<close>

text \<open>
  The body in the order of its statements. \<open>IF negative_sample_size > 0\<close> reads a script
  variable, which is looked up in the scope of the procedure; a NULL condition counts as
  false. The result of a call is the last table \<open>recommendations.item_cooc\<close>, or the
  failure of the first statement that fails (the tables written before it are not part
  of the result).
\<close>

definition sp_ComputePMI ::
  "(int \<Rightarrow> 'f::{plus,minus}) \<Rightarrow> int \<Rightarrow> int \<Rightarrow> ('i::linorder \<times> 'g) list
     \<Rightarrow> sql_error + (('i \<times> 'i) \<times> int \<times> 'f option) list" where
  "sp_ComputePMI lg min_item_frequency max_group_size vw_item_groups =
     (let vig = valid_item_groups min_item_frequency max_group_size vw_item_groups;
          item_cooc = pairwise_cooc vig;
          freq = item_frequency vig;
          total' = total_frequency freq;
          item_cooc = add_self_pairs item_cooc freq
      in case variable (sp_ComputePMI_scope min_item_frequency max_group_size total')
                ''negative_sample_size'' of
           Inl e \<Rightarrow> Inl e
         | Inr negative_sample_size \<Rightarrow>
             (case (if (case negative_sample_size of None \<Rightarrow> False | Some n \<Rightarrow> n > 0)
                    then add_negative_samples (the negative_sample_size) freq item_cooc
                    else Inr item_cooc) of
                Inl e \<Rightarrow> Inl e
              | Inr item_cooc \<Rightarrow> compute_pmi lg total' freq item_cooc))"

section \<open>sp_TrainItemMatchingModel\<close>

text \<open>
  The procedure is one \<open>CREATE OR REPLACE MODEL\<close> statement: the options it passes to
  the trainer and the rows \<open>((item1_Id, item2_Id), score)\<close> of its training query, with
  \<open>score = cooc * pmi\<close>. The trainer itself is outside the repository.
\<close>

record model_options =
  MODEL_TYPE :: string
  FEEDBACK_TYPE :: string
  WALS_ALPHA :: int
  NUM_FACTORS :: int
  USER_COL :: string
  ITEM_COL :: string
  RATING_COL :: string
  DATA_SPLIT_METHOD :: string

definition sp_TrainItemMatchingModel ::
  "(int \<Rightarrow> 'f::times) \<Rightarrow> int \<Rightarrow> (('i \<times> 'i) \<times> int \<times> 'f option) list
     \<Rightarrow> model_options \<times> (('i \<times> 'i) \<times> 'f option) list" where
  "sp_TrainItemMatchingModel cast dimensions item_cooc =
     (\<lparr>MODEL_TYPE = ''matrix_factorization'',
       FEEDBACK_TYPE = ''implicit'',
       WALS_ALPHA = 1,
       NUM_FACTORS = dimensions,
       USER_COL = ''item1_Id'',
       ITEM_COL = ''item2_Id'',
       RATING_COL = ''score'',
       DATA_SPLIT_METHOD = ''no_split''\<rparr>,
      map (\<lambda>(pair, cooc, pmi). (pair, map_option (\<lambda>p. cast cooc * p) pmi)) item_cooc)"

section \<open>Exploring the trained embeddings\<close>

text \<open>
  The weights are Python floats: a type parameter \<open>'w\<close> with \<open>0\<close> and \<open>+\<close>, of which
  no law is assumed. A row of the data frame \<open>song_embeddings\<close> is the pair of its columns
  \<open>feature\<close> and \<open>factor_weights\<close>, the latter a list of \<open>(factor, weight)\<close>; its other
  columns are not read. A \<open>dict\<close> is the list of its items in insertion order.
\<close>

datatype py_error = IndexError | KeyError

text \<open>\<open>results['feature'].unique()\<close>: the distinct values in order of first appearance.\<close>

fun unique :: "'a list \<Rightarrow> 'a list" where
  "unique [] = []"
| "unique (x # xs) = x # unique (filter (\<lambda>y. y \<noteq> x) xs)"

text \<open>
  \<open>xs[k] += w\<close> on a Python list: an index below zero counts from the end, an index
  outside the list raises.
\<close>

definition list_add_at :: "'w::plus list \<Rightarrow> int \<Rightarrow> 'w \<Rightarrow> py_error + 'w list" where
  "list_add_at xs k w =
     (if 0 \<le> k \<and> k < int (length xs) then Inr (xs[nat k := xs ! nat k + w])
      else if - int (length xs) \<le> k \<and> k < 0
        then Inr (xs[nat (int (length xs) + k) := xs ! nat (int (length xs) + k) + w])
      else Inl IndexError)"

text \<open>The loop over the elements of one \<open>factor_weights\<close>.\<close>

fun add_factor_weights :: "'w::plus list \<Rightarrow> (int \<times> 'w) list \<Rightarrow> py_error + 'w list" where
  "add_factor_weights emebedding [] = Inr emebedding"
| "add_factor_weights emebedding ((factor, weight) # factor_weights) =
     (case list_add_at emebedding (factor - 1) weight of
        Inl e \<Rightarrow> Inl e
      | Inr emebedding' \<Rightarrow> add_factor_weights emebedding' factor_weights)"

text \<open>The loop over the rows of \<open>embedding_pair\<close>.\<close>

fun add_rows :: "'w::plus list \<Rightarrow> ('i \<times> (int \<times> 'w) list) list \<Rightarrow> py_error + 'w list" where
  "add_rows emebedding [] = Inr emebedding"
| "add_rows emebedding (row # rows) =
     (case add_factor_weights emebedding (snd row) of
        Inl e \<Rightarrow> Inl e
      | Inr emebedding' \<Rightarrow> add_rows emebedding' rows)"

text \<open>The body of the loop over \<open>items\<close>, and \<open>process_results\<close>.\<close>

definition item_embedding ::
  "('i \<times> (int \<times> 'w) list) list \<Rightarrow> 'i \<Rightarrow> py_error + 'w::{plus,zero} list" where
  "item_embedding results item =
     add_rows (replicate 100 0) (filter (\<lambda>row. fst row = item) results)"

definition process_results ::
  "('i \<times> (int \<times> 'w) list) list \<Rightarrow> py_error + ('i \<times> 'w::{plus,zero} list) list" where
  "process_results results =
     collect
       (map (\<lambda>item. case item_embedding results item of
                       Inl e \<Rightarrow> Inl e
                     | Inr emebedding \<Rightarrow> Inr (item, emebedding))
          (unique (map fst results)))"

subsection \<open>The similarity loop\<close>

text \<open>
  \<open>cosine\<close> stands for \<open>cosine_similarity([embedding1], [embedding2])[0][0]\<close> and
  \<open>round5\<close> for \<open>round(_, 5)\<close>; the rounded similarities are compared by the sort, so
  their type is linearly ordered. \<open>songs\<close> is the dictionary of titles. What the loop
  prints is returned: for each \<open>idx1\<close> the title and the list of the printed
  \<open>(title, similarity)\<close>.
\<close>

definition dict_get :: "('k \<times> 'v) list \<Rightarrow> 'k \<Rightarrow> py_error + 'v" where
  "dict_get d k = (case map_of d k of None \<Rightarrow> Inl KeyError | Some v \<Rightarrow> Inr v)"

text \<open>
  \<open>sorted(xs, key=..., reverse=True)\<close>: the interpreter reverses the list, sorts it
  stably in ascending order and reverses the result, so that equal keys keep their order.
\<close>

definition sorted_reverse :: "('a \<Rightarrow> 'k::linorder) \<Rightarrow> 'a list \<Rightarrow> 'a list" where
  "sorted_reverse key xs = rev (sort_key key (rev xs))"

text \<open>The inner loop and the sort: the value of \<open>similar_items\<close> after \<open>sorted\<close>.\<close>

definition similar_items ::
  "('i \<rightharpoonup> 't) \<Rightarrow> ('w list \<Rightarrow> 'w list \<Rightarrow> 'f) \<Rightarrow> ('f \<Rightarrow> 's::linorder)
     \<Rightarrow> ('i \<times> 'w list) list \<Rightarrow> 'w list \<Rightarrow> py_error + ('t \<times> 's) list" where
  "similar_items songs cosine round5 item_embeddings embedding1 =
     (case collect
             (map (\<lambda>item2_Id.
                     case songs item2_Id of
                       None \<Rightarrow> Inl KeyError
                     | Some title2 \<Rightarrow>
                         (case dict_get item_embeddings item2_Id of
                            Inl e \<Rightarrow> Inl e
                          | Inr embedding2 \<Rightarrow>
                              Inr (title2, round5 (cosine embedding1 embedding2))))
                (map fst item_embeddings)) of
        Inl e \<Rightarrow> Inl e
      | Inr similar \<Rightarrow> Inr (sorted_reverse snd similar))"

text \<open>The body of the outer loop for one \<open>idx1\<close>; it prints \<open>similar_items[1:]\<close>.\<close>

definition explore_item ::
  "('i \<rightharpoonup> 't) \<Rightarrow> ('w list \<Rightarrow> 'w list \<Rightarrow> 'f) \<Rightarrow> ('f \<Rightarrow> 's::linorder)
     \<Rightarrow> ('i \<times> 'w list) list \<Rightarrow> nat \<Rightarrow> py_error + 't \<times> ('t \<times> 's) list" where
  "explore_item songs cosine round5 item_embeddings idx1 =
     (let item1_Id = map fst item_embeddings ! idx1
      in case songs item1_Id of
           None \<Rightarrow> Inl KeyError
         | Some title1 \<Rightarrow>
             (case dict_get item_embeddings item1_Id of
                Inl e \<Rightarrow> Inl e
              | Inr embedding1 \<Rightarrow>
                  (case similar_items songs cosine round5 item_embeddings embedding1 of
                     Inl e \<Rightarrow> Inl e
                   | Inr similar \<Rightarrow> Inr (title1, drop 1 similar))))"

text \<open>\<open>for idx1 in range(0, len(item_ids) - 1)\<close>.\<close>

definition explore ::
  "('i \<rightharpoonup> 't) \<Rightarrow> ('w list \<Rightarrow> 'w list \<Rightarrow> 'f) \<Rightarrow> ('f \<Rightarrow> 's::linorder)
     \<Rightarrow> ('i \<times> 'w list) list \<Rightarrow> py_error + ('t \<times> ('t \<times> 's) list) list" where
  "explore songs cosine round5 item_embeddings =
     collect (map (explore_item songs cosine round5 item_embeddings)
                [0 ..< length item_embeddings - 1])"

section \<open>Notions used in the statements\<close>

text \<open>The number of rows of a table of \<open>(item_Id, group_Id)\<close> with a given item, with a given group.\<close>

definition frequency_in :: "('i \<times> 'g) list \<Rightarrow> 'i \<Rightarrow> int" where
  "frequency_in rows i = int (length (filter (\<lambda>r. fst r = i) rows))"

definition size_in :: "('i \<times> 'g) list \<Rightarrow> 'g \<Rightarrow> int" where
  "size_in rows g = int (length (filter (\<lambda>r. snd r = g) rows))"

text \<open>
  The first step of the algorithm as the specification words it, for comparison with
  \<open>valid_item_groups\<close>: the frequency filter and the size filter are both evaluated on the
  unfiltered relation, and the relation is restricted to the rows passing both.
\<close>

definition valid_item_groups_spec :: "int \<Rightarrow> int \<Rightarrow> ('i \<times> 'g) list \<Rightarrow> ('i \<times> 'g) list" where
  "valid_item_groups_spec min_item_frequency max_group_size vw_item_groups =
     filter (\<lambda>(i, g). min_item_frequency \<le> frequency_in vw_item_groups i
                    \<and> 2 \<le> size_in vw_item_groups g
                    \<and> size_in vw_item_groups g \<le> max_group_size)
       vw_item_groups"

text \<open>
  The pair appended to \<open>similar_items\<close> for a candidate \<open>(item2_Id, embedding2)\<close> of the
  query with embedding \<open>embedding1\<close>, where \<open>title\<close> gives the titles that \<open>songs\<close>
  holds.
\<close>

definition similarity_entry ::
  "('i \<Rightarrow> 't) \<Rightarrow> ('w list \<Rightarrow> 'w list \<Rightarrow> 'f) \<Rightarrow> ('f \<Rightarrow> 's) \<Rightarrow> 'w list
     \<Rightarrow> 'i \<times> 'w list \<Rightarrow> 't \<times> 's" where
  "similarity_entry title cosine round5 embedding1 candidate =
     (title (fst candidate), round5 (cosine embedding1 (snd candidate)))"

text \<open>
  A stand-in for the cosine similarity in the evaluations below: on unit vectors along
  the axes the cosine similarity is the inner product.
\<close>

definition inner_product :: "int list \<Rightarrow> int list \<Rightarrow> int" where
  "inner_product v1 v2 = sum_list (map2 (*) v1 v2)"

section \<open>Grouping\<close>

lemma filter_eq_distinct:
  "distinct ks \<Longrightarrow> filter (\<lambda>x. x = k) ks = (if k \<in> set ks then [k] else [])"
  by (induction ks) auto

lemma group_by_key_rows:
  "filter (\<lambda>r. fst r = k) (group_by key agg rows) =
     (if k \<in> key ` set rows then [(k, agg (filter (\<lambda>r. key r = k) rows))] else [])"
proof -
  have "filter (\<lambda>r. fst r = k) (group_by key agg rows) =
        map (\<lambda>k. (k, agg (filter (\<lambda>r. key r = k) rows)))
          (filter (\<lambda>x. x = k) (remdups (map key rows)))"
    by (simp add: group_by_def filter_map comp_def)
  then show ?thesis
    by (simp add: filter_eq_distinct)
qed

lemma set_group_by:
  "set (group_by key agg rows) =
     (\<lambda>k. (k, agg (filter (\<lambda>r. key r = k) rows))) ` key ` set rows"
  by (simp add: group_by_def)

lemma group_by_keys: "fst ` set (group_by key agg rows) = key ` set rows"
  by (auto simp: group_by_def image_iff)

lemma distinct_group_by_keys: "distinct (map fst (group_by key agg rows))"
  by (simp add: group_by_def comp_def)

lemma in_group_by_iff:
  "(k, v) \<in> set (group_by key agg rows) \<longleftrightarrow>
     k \<in> key ` set rows \<and> v = agg (filter (\<lambda>r. key r = k) rows)"
  by (auto simp: set_group_by)

section \<open>The valid items and groups\<close>

lemma valid_items_keys:
  "i \<in> fst ` set (valid_items mn vw) \<longleftrightarrow>
     i \<in> fst ` set vw \<and> mn \<le> frequency_in vw i"
  by (force simp: valid_items_def in_group_by_iff count_rows_def frequency_in_def image_iff)

lemma valid_items_filter:
  "filter (\<lambda>(i, g). i \<in> fst ` set (valid_items mn vw)) vw =
   filter (\<lambda>(i, g). mn \<le> frequency_in vw i) vw"
  by (rule filter_cong) (force simp: valid_items_keys)+

lemma valid_groups_keys:
  "g \<in> fst ` set (valid_groups mn mx vw) \<longleftrightarrow>
     g \<in> snd ` set (filter (\<lambda>(i, g). mn \<le> frequency_in vw i) vw) \<and>
     2 \<le> size_in (filter (\<lambda>(i, g). mn \<le> frequency_in vw i) vw) g \<and>
     size_in (filter (\<lambda>(i, g). mn \<le> frequency_in vw i) vw) g \<le> mx"
  unfolding valid_groups_def set_map valid_items_filter
  by (force simp: in_group_by_iff count_rows_def size_in_def image_iff)

lemma two_rows_mem:
  "2 \<le> int (length (filter (\<lambda>r. f r = k) rows)) \<Longrightarrow> k \<in> f ` set rows"
  by (induction rows) (auto split: if_splits)

lemma valid_item_groups_mem:
  "(i, g) \<in> set (valid_item_groups mn mx vw) \<longleftrightarrow>
     (i, g) \<in> set vw \<and> i \<in> set (map fst (valid_items mn vw))
     \<and> g \<in> set (map fst (valid_groups mn mx vw))"
  by (auto simp: valid_item_groups_def)

text \<open>
  Claim C2, as the code has it: the frequency filter is evaluated on the unfiltered view,
  but the size of a group counts only its rows whose item passed the frequency filter;
  \<open>valid_item_groups\<close> keeps the rows of the view whose item passes the first and whose
  group passes the second.
\<close>

theorem valid_item_groups_filters:
  "valid_item_groups mn mx vw =
     filter (\<lambda>(i, g). mn \<le> frequency_in vw i
                    \<and> 2 \<le> size_in (filter (\<lambda>(i', g'). mn \<le> frequency_in vw i') vw) g
                    \<and> size_in (filter (\<lambda>(i', g'). mn \<le> frequency_in vw i') vw) g \<le> mx)
       vw"
proof -
  let ?kept = "filter (\<lambda>(i', g'). mn \<le> frequency_in vw i') vw"
  have groups: "g \<in> set (map fst (valid_groups mn mx vw)) \<longleftrightarrow>
                  2 \<le> size_in ?kept g \<and> size_in ?kept g \<le> mx" for g
  proof -
    have "2 \<le> size_in ?kept g \<Longrightarrow> g \<in> snd ` set ?kept"
      unfolding size_in_def by (rule two_rows_mem)
    then show ?thesis
      unfolding set_map valid_groups_keys by blast
  qed
  have items: "(i, g) \<in> set vw \<Longrightarrow>
      i \<in> set (map fst (valid_items mn vw)) \<longleftrightarrow> mn \<le> frequency_in vw i" for i g
    unfolding set_map valid_items_keys by force
  show ?thesis
    unfolding valid_item_groups_def
    by (rule filter_cong) (auto simp only: items groups split: prod.splits)
qed

text \<open>
  Claim C2 as stated fails: with \<open>min_item_frequency = 2\<close> and \<open>max_group_size = 2\<close>,
  group 10 has three rows in the view, two of them of valid items; the code keeps it, the
  independent filters drop it.
\<close>

theorem valid_item_groups_counterexample:
  "valid_item_groups 2 2 [(1::nat, 10::nat), (2, 10), (3, 10), (1, 20), (2, 20)]
     = [(1, 10), (2, 10), (1, 20), (2, 20)]
   \<and> valid_item_groups_spec 2 2 [(1::nat, 10::nat), (2, 10), (3, 10), (1, 20), (2, 20)]
     = [(1, 20), (2, 20)]"
  by (simp add: valid_item_groups_def valid_groups_def valid_items_def group_by_def
      count_rows_def valid_item_groups_spec_def frequency_in_def size_in_def)

section \<open>The co-occurrence table\<close>

lemma cooc_join_rows:
  "((a, b), c) \<in> set (cooc_join vig) \<Longrightarrow> a < b \<and> c = 1"
  by (auto simp: cooc_join_def)

lemma pairwise_cooc_ordered:
  "((a, b), c) \<in> set (pairwise_cooc vig) \<Longrightarrow> a < b"
  unfolding pairwise_cooc_def in_group_by_iff
  by (auto dest: cooc_join_rows)

text \<open>
  Claim C1, as the code has it: every row of the pairwise table has
  \<open>item1_Id < item2_Id\<close>; once the self-pairs are appended every row has
  \<open>item1_Id \<le> item2_Id\<close>, and a row with equal items is the self-pair of a row of
  \<open>item_frequency\<close>.
\<close>

theorem item_cooc_ordering:
  fixes vig :: "('i::linorder \<times> 'g) list"
  shows "(\<forall>((a, b), c) \<in> set (pairwise_cooc vig). a < b) \<and>
         (\<forall>((a, b), c) \<in> set (add_self_pairs (pairwise_cooc vig) (item_frequency vig)).
             a \<le> b \<and> (a = b \<longrightarrow> (a, c) \<in> set (item_frequency vig)))"
  by (auto simp: add_self_pairs_def dest: pairwise_cooc_ordered)

theorem item_cooc_ordering_witness:
  "((1::nat, 2), 2) \<in> set (pairwise_cooc [(1::nat, 10::nat), (2, 10), (1, 20), (2, 20)])
   \<and> (1::nat) < 2
   \<and> ((2::nat, 2), 2) \<in> set (add_self_pairs
         (pairwise_cooc [(1::nat, 10::nat), (2, 10), (1, 20), (2, 20)])
         (item_frequency [(1::nat, 10::nat), (2, 10), (1, 20), (2, 20)]))
   \<and> (2::nat, 2) \<in> set (item_frequency [(1::nat, 10::nat), (2, 10), (1, 20), (2, 20)])"
proof -
  let ?vig = "[(1::nat, 10::nat), (2, 10), (1, 20), (2, 20)]"
  have p: "((1::nat, 2), 2) \<in> set (pairwise_cooc ?vig)"
    by (simp add: pairwise_cooc_def cooc_join_def group_by_def)
  have s: "((2::nat, 2), 2) \<in> set (add_self_pairs (pairwise_cooc ?vig) (item_frequency ?vig))"
    by (simp add: add_self_pairs_def item_frequency_def group_by_def count_rows_def)
  from item_cooc_ordering [of ?vig] p s show ?thesis by fast
qed

text \<open>
  Claim C1 as stated fails: the table after the self-pairs holds the row \<open>((1, 1), 2)\<close>,
  whose two items are equal.
\<close>

theorem item_cooc_ordering_counterexample:
  "((1::nat, 1), 2) \<in> set (add_self_pairs
       (pairwise_cooc (valid_item_groups 1 10 [(1::nat, 10::nat), (2, 10), (1, 20), (2, 20)]))
       (item_frequency (valid_item_groups 1 10 [(1::nat, 10::nat), (2, 10), (1, 20), (2, 20)])))
   \<and> \<not> ((1::nat) < 1)"
  by (simp add: valid_item_groups_def valid_groups_def valid_items_def group_by_def
      count_rows_def add_self_pairs_def item_frequency_def)

text \<open>
  Claim C5: for an item with a row in \<open>valid_item_groups\<close>, the table after the
  self-pairs has exactly one row for the pair of the item with itself, and its count is
  the number of rows of the item in \<open>valid_item_groups\<close> (the filtered relation).
\<close>

theorem self_pair_count:
  fixes vw :: "('i::linorder \<times> 'g) list"
  assumes "i \<in> fst ` set (valid_item_groups mn mx vw)"
  shows "filter (\<lambda>r. fst r = (i, i))
           (add_self_pairs (pairwise_cooc (valid_item_groups mn mx vw))
              (item_frequency (valid_item_groups mn mx vw)))
         = [((i, i), frequency_in (valid_item_groups mn mx vw) i)]"
proof -
  let ?vig = "valid_item_groups mn mx vw"
  have "filter (\<lambda>r. fst r = (i, i)) (pairwise_cooc ?vig) = []"
    by (auto simp: filter_empty_conv dest: pairwise_cooc_ordered)
  moreover have
    "filter (\<lambda>r. fst r = (i, i))
       (map (\<lambda>(item_Id, frequency). ((item_Id, item_Id), frequency)) (item_frequency ?vig))
     = map (\<lambda>(item_Id, frequency). ((item_Id, item_Id), frequency))
         (filter (\<lambda>r. fst r = i) (item_frequency ?vig))"
    by (simp add: filter_map comp_def case_prod_unfold)
  ultimately show ?thesis using assms
    by (simp add: add_self_pairs_def item_frequency_def group_by_key_rows count_rows_def
        frequency_in_def)
qed

text \<open>An item without a row in \<open>valid_item_groups\<close> gets no self-pair.\<close>

lemma no_self_pair_without_rows:
  fixes vig :: "('i::linorder \<times> 'g) list"
  assumes "i \<notin> fst ` set vig"
  shows "filter (\<lambda>r. fst r = (i, i))
           (add_self_pairs (pairwise_cooc vig) (item_frequency vig)) = []"
  using assms
  by (auto simp: filter_empty_conv add_self_pairs_def item_frequency_def in_group_by_iff
      dest: pairwise_cooc_ordered)

text \<open>
  At this input item 1 has three rows in the view and one in the filtered relation; the
  count of its self-pair is 1.
\<close>

theorem self_pair_count_witness:
  "(1::nat) \<in> fst ` set (valid_item_groups 1 10 [(1::nat, 10::nat), (2, 10), (1, 20), (1, 30)])
   \<and> filter (\<lambda>r. fst r = (1, 1))
        (add_self_pairs
           (pairwise_cooc (valid_item_groups 1 10 [(1::nat, 10::nat), (2, 10), (1, 20), (1, 30)]))
           (item_frequency (valid_item_groups 1 10 [(1::nat, 10::nat), (2, 10), (1, 20), (1, 30)])))
      = [((1, 1), 1)]
   \<and> frequency_in [(1::nat, 10::nat), (2, 10), (1, 20), (1, 30)] 1 = 3"
proof -
  let ?vw = "[(1::nat, 10::nat), (2, 10), (1, 20), (1, 30)]"
  have vig: "valid_item_groups 1 10 ?vw = [(1, 10), (2, 10)]"
    by (simp add: valid_item_groups_def valid_groups_def valid_items_def group_by_def
        count_rows_def)
  have h: "(1::nat) \<in> fst ` set (valid_item_groups 1 10 ?vw)"
    unfolding vig by simp
  have f: "frequency_in (valid_item_groups 1 10 ?vw) 1 = 1"
    unfolding vig by (simp add: frequency_in_def)
  have "frequency_in ?vw 1 = 3"
    by (simp add: frequency_in_def)
  with self_pair_count [OF h] h show ?thesis
    unfolding f by blast
qed

section \<open>Counting shared groups\<close>

lemma sum_list_ones:
  "\<forall>r \<in> set rows. snd r = (1::int) \<Longrightarrow> sum_list (map snd rows) = int (length rows)"
  by (induction rows) auto

lemma cooc_join_key_length:
  "length (filter (\<lambda>r. fst r = (x, y)) (cooc_join vig)) =
   length (filter (\<lambda>(a, b). snd a = snd b \<and> fst a < fst b \<and> fst a = x \<and> fst b = y)
             (List.product vig vig))"
proof -
  have "filter (\<lambda>r. fst r = (x, y)) (cooc_join vig) =
        map (\<lambda>(a, b). ((fst a, fst b), 1))
          (filter (\<lambda>(a, b). snd a = snd b \<and> fst a < fst b \<and> fst a = x \<and> fst b = y)
             (List.product vig vig))"
    unfolding cooc_join_def filter_map filter_filter comp_def
    by (rule arg_cong [where f = "map _"], rule filter_cong) auto
  then show ?thesis by simp
qed

lemma shared_groups_card:
  fixes x y :: "'i::linorder"
  assumes "distinct vig" and "x < y"
  shows "length (filter (\<lambda>r. fst r = (x, y)) (cooc_join vig)) =
         card {g. (x, g) \<in> set vig \<and> (y, g) \<in> set vig}"
proof -
  let ?Q = "\<lambda>(a, b). snd a = snd b \<and> fst a < fst b \<and> fst a = x \<and> fst b = y"
  let ?G = "{g. (x, g) \<in> set vig \<and> (y, g) \<in> set vig}"
  have "distinct (List.product vig vig)"
    using assms(1) by (simp add: distinct_product)
  then have "length (filter ?Q (List.product vig vig)) =
             card {p \<in> set (List.product vig vig). ?Q p}"
    by (simp add: distinct_length_filter Int_def conj_commute)
  also have "{p \<in> set (List.product vig vig). ?Q p} = (\<lambda>g. ((x, g), (y, g))) ` ?G"
    using assms(2) by (auto simp: image_iff)
  also have "card \<dots> = card ?G"
    by (rule card_image) (simp add: inj_on_def)
  finally show ?thesis
    by (simp add: cooc_join_key_length)
qed

lemma pairwise_cooc_key:
  fixes x y :: "'i::linorder"
  assumes "distinct vig" and "x < y"
  shows "filter (\<lambda>r. fst r = (x, y)) (pairwise_cooc vig) =
         (if card {g. (x, g) \<in> set vig \<and> (y, g) \<in> set vig} = 0 then []
          else [((x, y), int (card {g. (x, g) \<in> set vig \<and> (y, g) \<in> set vig}))])"
proof -
  let ?rows = "filter (\<lambda>r. fst r = (x, y)) (cooc_join vig)"
  have len: "length ?rows = card {g. (x, g) \<in> set vig \<and> (y, g) \<in> set vig}"
    by (rule shared_groups_card [OF assms])
  have mem: "(x, y) \<in> fst ` set (cooc_join vig) \<longleftrightarrow> length ?rows \<noteq> 0"
    by (force simp: filter_empty_conv image_iff)
  have "sum_list (map snd ?rows) = int (length ?rows)"
    by (rule sum_list_ones) (auto dest: cooc_join_rows)
  then show ?thesis
    unfolding pairwise_cooc_def group_by_key_rows mem len by simp
qed

text \<open>
  Claim C3: the view is a relation, as the data model of the specification has it (no
  \<open>(item_Id, group_Id)\<close> row twice); \<open>A\<close> and \<open>B\<close> are distinct valid items, and \<open>k\<close> is
  the number of valid groups that hold both. Then the pairwise table, before the
  self-pairs, has no row for the ordered pair of \<open>A\<close> and \<open>B\<close> when \<open>k = 0\<close>, and
  exactly one row, with count \<open>k\<close>, otherwise.
\<close>

theorem pairwise_cooc_counts_shared_groups:
  fixes A B :: "'i::linorder"
  assumes "distinct vw"
    and "A \<noteq> B"
    and "A \<in> set (map fst (valid_items mn vw))"
    and "B \<in> set (map fst (valid_items mn vw))"
    and "card {g. g \<in> set (map fst (valid_groups mn mx vw))
                  \<and> (A, g) \<in> set vw \<and> (B, g) \<in> set vw} = k"
  shows "filter (\<lambda>r. fst r = (min A B, max A B)) (pairwise_cooc (valid_item_groups mn mx vw))
           = (if k = 0 then [] else [((min A B, max A B), int k)])"
proof -
  let ?vig = "valid_item_groups mn mx vw"
  have d: "distinct ?vig"
    using assms(1) by (simp add: valid_item_groups_def)
  have lt: "min A B < max A B"
    using assms(2) by (auto simp: min_def max_def)
  have "{g. (min A B, g) \<in> set ?vig \<and> (max A B, g) \<in> set ?vig} =
        {g. g \<in> set (map fst (valid_groups mn mx vw)) \<and> (A, g) \<in> set vw \<and> (B, g) \<in> set vw}"
    using assms(3,4) unfolding valid_item_groups_mem by (auto simp: min_def max_def)
  then have "card {g. (min A B, g) \<in> set ?vig \<and> (max A B, g) \<in> set ?vig} = k"
    using assms(5) by simp
  then show ?thesis
    using pairwise_cooc_key [OF d lt] by simp
qed

text \<open>Items 2 and 1 share the valid groups 10 and 20; the row of the pair \<open>(1, 2)\<close> counts 2.\<close>

theorem pairwise_cooc_counts_shared_groups_witness:
  "filter (\<lambda>r. fst r = (min 2 1, max 2 1))
     (pairwise_cooc (valid_item_groups 1 10
        [(1::nat, 10::nat), (2, 10), (3, 10), (1, 20), (2, 20)]))
   = [((1, 2), 2)]"
proof -
  let ?vw = "[(1::nat, 10::nat), (2, 10), (3, 10), (1, 20), (2, 20)]"
  have items: "map fst (valid_items 1 ?vw) = [3, 1, 2]"
    by (simp add: valid_items_def group_by_def count_rows_def)
  have groups: "map fst (valid_groups 1 10 ?vw) = [10, 20]"
    by (simp add: valid_groups_def valid_items_def group_by_def count_rows_def)
  have "{g. g \<in> set (map fst (valid_groups 1 10 ?vw)) \<and> (2, g) \<in> set ?vw \<and> (1, g) \<in> set ?vw}
          = {10, 20}"
    unfolding groups by auto
  then have k: "card {g. g \<in> set (map fst (valid_groups 1 10 ?vw))
                        \<and> (2, g) \<in> set ?vw \<and> (1, g) \<in> set ?vw} = 2"
    by simp
  have "distinct ?vw" and "(2::nat) \<noteq> 1"
    and "2 \<in> set (map fst (valid_items 1 ?vw))" and "1 \<in> set (map fst (valid_items 1 ?vw))"
    unfolding items by simp_all
  from pairwise_cooc_counts_shared_groups [OF this k] show ?thesis
    by simp
qed

text \<open>
  Without the distinctness of the rows the count is the number of joined row pairs: a
  row held twice counts twice.
\<close>

lemma pairwise_cooc_repeated_row:
  "pairwise_cooc [(1::nat, 10::nat), (1, 10), (2, 10)] = [((1, 2), 2)]"
  by (simp add: pairwise_cooc_def cooc_join_def group_by_def)

section \<open>The PMI\<close>

lemma collect_Inr: "collect (map (\<lambda>x. Inr (h x)) xs) = Inr (map h xs)"
  by (induction xs) auto

lemma collect_map_cong:
  "(\<And>x. x \<in> set xs \<Longrightarrow> f x = Inr (h x)) \<Longrightarrow> collect (map f xs) = Inr (map h xs)"
  by (induction xs) auto

lemma join_unique:
  assumes "\<And>x. x \<in> set xs \<Longrightarrow> filter (P x) ys = [g x]"
  shows "filter (\<lambda>(x, y). P x y) (List.product xs ys) = map (\<lambda>x. (x, g x)) xs"
  using assms
proof (induction xs)
  case Nil
  then show ?case by simp
next
  case (Cons x xs)
  have "filter (\<lambda>(x, y). P x y) (map (Pair x) ys) = map (Pair x) (filter (P x) ys)"
    by (simp add: filter_map comp_def)
  with Cons show ?case by simp
qed

lemma item_frequency_key:
  "filter (\<lambda>r. fst r = i) (item_frequency vig) =
     (if i \<in> fst ` set vig then [(i, frequency_in vig i)] else [])"
  by (simp add: item_frequency_def group_by_key_rows count_rows_def frequency_in_def)

lemma frequency_in_pos: "i \<in> fst ` set vig \<Longrightarrow> 1 \<le> frequency_in vig i"
proof -
  assume "i \<in> fst ` set vig"
  then have "filter (\<lambda>r. fst r = i) vig \<noteq> []"
    by (auto simp: filter_empty_conv)
  then show ?thesis
    unfolding frequency_in_def by (cases "filter (\<lambda>r. fst r = i) vig") simp_all
qed

lemma item_frequency_rows:
  "(i, f) \<in> set (item_frequency vig) \<longleftrightarrow> i \<in> fst ` set vig \<and> f = frequency_in vig i"
  by (auto simp: item_frequency_def in_group_by_iff count_rows_def frequency_in_def)

lemma pairwise_cooc_rows:
  assumes "((a, b), c) \<in> set (pairwise_cooc vig)"
  shows "a \<in> fst ` set vig \<and> b \<in> fst ` set vig \<and> 1 \<le> c"
proof -
  let ?rows = "filter (\<lambda>r. fst r = (a, b)) (cooc_join vig)"
  from assms have key: "(a, b) \<in> fst ` set (cooc_join vig)"
    and c: "c = sum_list (map snd ?rows)"
    by (auto simp: pairwise_cooc_def in_group_by_iff)
  from key have items: "a \<in> fst ` set vig \<and> b \<in> fst ` set vig"
    by (force simp: cooc_join_def)
  from key have "?rows \<noteq> []"
    by (force simp: filter_empty_conv)
  then have "1 \<le> int (length ?rows)"
    by (cases ?rows) simp_all
  moreover have "sum_list (map snd ?rows) = int (length ?rows)"
    by (rule sum_list_ones) (auto dest: cooc_join_rows)
  ultimately show ?thesis using items c by simp
qed

lemma item_cooc_rows:
  assumes "((a, b), c) \<in> set (add_self_pairs (pairwise_cooc vig) (item_frequency vig))"
  shows "a \<in> fst ` set vig \<and> b \<in> fst ` set vig \<and> 1 \<le> c"
  using assms pairwise_cooc_rows [of a b c vig]
  by (auto simp: add_self_pairs_def item_frequency_rows frequency_in_pos)

lemma sum_list_pos_int:
  "xs \<noteq> [] \<Longrightarrow> \<forall>x \<in> set xs. (1::int) \<le> x \<Longrightarrow> 1 \<le> sum_list xs"
proof (induction xs)
  case Nil
  then show ?case by simp
next
  case (Cons x xs)
  have "0 \<le> sum_list xs"
    by (rule sum_list_nonneg) (use Cons.prems in auto)
  with Cons.prems show ?case by simp
qed

lemma total_frequency_pos:
  assumes "vig \<noteq> []"
  shows "total_frequency (item_frequency vig) = Some (sum_list (map snd (item_frequency vig)))
         \<and> 1 \<le> sum_list (map snd (item_frequency vig))"
proof -
  from assms obtain r where "r \<in> set vig" by (cases vig) auto
  then have "fst r \<in> fst ` set (item_frequency vig)"
    unfolding item_frequency_def group_by_keys by simp
  then have ne: "map snd (item_frequency vig) \<noteq> []" by auto
  have "\<forall>x \<in> set (map snd (item_frequency vig)). 1 \<le> x"
    by (auto simp: item_frequency_rows frequency_in_pos)
  with ne show ?thesis
    by (simp add: total_frequency_def sum_column_def sum_list_pos_int)
qed


lemma filter_product_left:
  "filter (\<lambda>(x, y). P x) (List.product xs ys) = List.product (filter P xs) ys"
  by (induction xs) (auto simp: filter_map comp_def)

lemma pmi_defined:
  "1 \<le> c \<Longrightarrow> 1 \<le> f1 \<Longrightarrow> 1 \<le> f2 \<Longrightarrow> 1 \<le> t \<Longrightarrow>
     pmi lg c f1 f2 (Some t) = Inr (Some (lg c - lg f1 - lg f2 + lg t))"
  by (simp add: pmi_def)

text \<open>
  The statement that computes the PMI, taken alone and run on the tables the statements
  before the \<open>IF\<close> leave (the table with the self-pairs, \<open>item_frequency\<close> and
  \<open>total\<close>): it does not fail, and yields one row for each row of the co-occurrence
  table, with \<open>pmi = LOG(cooc, 2) - LOG(frequency of item1, 2)
  - LOG(frequency of item2, 2) + LOG(total, 2)\<close>, \<open>total\<close> being the sum of the column
  \<open>frequency\<close>; the training query of \<open>sp_TrainItemMatchingModel\<close> on such a table hands
  \<open>cooc * pmi\<close> of each row to the trainer. This is what the statement would compute; no
  call of the procedure gets to it, as the next theorem shows.
\<close>

lemma pmi_formula:
  fixes lg cast :: "int \<Rightarrow> 'f::{plus,minus,times}" and vig :: "('i::linorder \<times> 'g) list"
  shows "\<exists>pmi_table.
           compute_pmi lg (total_frequency (item_frequency vig)) (item_frequency vig)
             (add_self_pairs (pairwise_cooc vig) (item_frequency vig)) = Inr pmi_table
         \<and> pmi_table =
             map (\<lambda>((a, b), c).
                    ((a, b), c,
                     Some (lg c - lg (frequency_in vig a) - lg (frequency_in vig b)
                           + lg (sum_list (map snd (item_frequency vig))))))
               (add_self_pairs (pairwise_cooc vig) (item_frequency vig))
         \<and> snd (sp_TrainItemMatchingModel cast dimensions pmi_table) =
             map (\<lambda>((a, b), c).
                    ((a, b),
                     Some (cast c * (lg c - lg (frequency_in vig a) - lg (frequency_in vig b)
                                     + lg (sum_list (map snd (item_frequency vig)))))))
               (add_self_pairs (pairwise_cooc vig) (item_frequency vig))"
proof -
  let ?freq = "item_frequency vig"
  let ?cooc = "add_self_pairs (pairwise_cooc vig) ?freq"
  let ?T = "sum_list (map snd ?freq)"
  let ?b = "\<lambda>r::('i \<times> 'i) \<times> int. (fst (fst r), frequency_in vig (fst (fst r)))"
  let ?c = "\<lambda>r::('i \<times> 'i) \<times> int. (snd (fst r), frequency_in vig (snd (fst r)))"
  have rows: "r \<in> set ?cooc \<Longrightarrow>
      fst (fst r) \<in> fst ` set vig \<and> snd (fst r) \<in> fst ` set vig \<and> 1 \<le> snd r" for r
    using item_cooc_rows [of "fst (fst r)" "snd (fst r)" "snd r" vig] by simp
  have j1: "filter (\<lambda>(a, b). fst (fst a) = fst b) (List.product ?cooc ?freq)
              = map (\<lambda>r. (r, ?b r)) ?cooc"
  proof (rule join_unique)
    fix r assume "r \<in> set ?cooc"
    then have "fst (fst r) \<in> fst ` set vig" using rows by blast
    then have "filter (\<lambda>x. fst x = fst (fst r)) ?freq = [?b r]"
      by (simp add: item_frequency_key)
    then show "filter (\<lambda>b. fst (fst r) = fst b) ?freq = [?b r]"
      by (simp add: eq_commute)
  qed
  have j2: "filter (\<lambda>(ab, c). snd (fst (fst ab)) = fst c)
              (List.product (map (\<lambda>r. (r, ?b r)) ?cooc) ?freq)
              = map (\<lambda>ab. (ab, ?c (fst ab))) (map (\<lambda>r. (r, ?b r)) ?cooc)"
  proof (rule join_unique)
    fix ab assume "ab \<in> set (map (\<lambda>r. (r, ?b r)) ?cooc)"
    then have "fst ab \<in> set ?cooc" by auto
    then have "snd (fst (fst ab)) \<in> fst ` set vig" using rows by blast
    then have "filter (\<lambda>x. fst x = snd (fst (fst ab))) ?freq = [?c (fst ab)]"
      by (simp add: item_frequency_key)
    then show "filter (\<lambda>c. snd (fst (fst ab)) = fst c) ?freq = [?c (fst ab)]"
      by (simp add: eq_commute)
  qed
  let ?P1 = "\<lambda>ab::(('i \<times> 'i) \<times> int) \<times> ('i \<times> int). fst (fst (fst ab)) = fst (snd ab)"
  let ?P2 = "\<lambda>(ab::(('i \<times> 'i) \<times> int) \<times> ('i \<times> int), c::'i \<times> int).
               snd (fst (fst ab)) = fst c"
  have "filter (\<lambda>((a, b), c). fst (fst a) = fst b \<and> snd (fst a) = fst c)
          (List.product (List.product ?cooc ?freq) ?freq)
        = filter ?P2 (filter (\<lambda>(ab, c). ?P1 ab) (List.product (List.product ?cooc ?freq) ?freq))"
    unfolding filter_filter by (rule filter_cong) (simp_all add: case_prod_unfold conj_commute)
  also have "\<dots> = filter ?P2 (List.product (filter ?P1 (List.product ?cooc ?freq)) ?freq)"
    by (simp only: filter_product_left)
  also have "filter ?P1 (List.product ?cooc ?freq) = map (\<lambda>r. (r, ?b r)) ?cooc"
    using j1 by (simp add: case_prod_unfold)
  also have "filter ?P2 (List.product (map (\<lambda>r. (r, ?b r)) ?cooc) ?freq)
             = map (\<lambda>r. ((r, ?b r), ?c r)) ?cooc"
    using j2 by (simp add: comp_def)
  finally have joined: "filter (\<lambda>((a, b), c). fst (fst a) = fst b \<and> snd (fst a) = fst c)
                  (List.product (List.product ?cooc ?freq) ?freq)
                = map (\<lambda>r. ((r, ?b r), ?c r)) ?cooc" .
  let ?row = "\<lambda>r::('i \<times> 'i) \<times> int. (fst r, snd r,
       Some (lg (snd r) - lg (frequency_in vig (fst (fst r)))
             - lg (frequency_in vig (snd (fst r))) + lg ?T))"
  have table: "compute_pmi lg (total_frequency ?freq) ?freq ?cooc = Inr (map ?row ?cooc)"
    unfolding compute_pmi_def joined map_map
  proof (rule collect_map_cong)
    fix r assume r: "r \<in> set ?cooc"
    then have "vig \<noteq> []" using rows by fastforce
    then have t: "total_frequency ?freq = Some ?T" and "1 \<le> ?T"
      using total_frequency_pos by blast+
    with r rows [OF r] show
      "((\<lambda>((a, b), c). case pmi lg (snd a) (snd b) (snd c) (total_frequency ?freq) of
                Inl e \<Rightarrow> Inl e | Inr p \<Rightarrow> Inr (fst a, snd a, p))
         \<circ> (\<lambda>r. ((r, ?b r), ?c r))) r = Inr (?row r)"
      by (simp add: pmi_defined frequency_in_pos)
  qed
  have shape: "map ?row ?cooc =
        map (\<lambda>((a, b), c).
               ((a, b), c,
                Some (lg c - lg (frequency_in vig a) - lg (frequency_in vig b) + lg ?T)))
          ?cooc"
    by (simp add: case_prod_unfold)
  have train: "snd (sp_TrainItemMatchingModel cast dimensions (map ?row ?cooc)) =
        map (\<lambda>((a, b), c).
               ((a, b),
                Some (cast c * (lg c - lg (frequency_in vig a) - lg (frequency_in vig b)
                                + lg ?T))))
          ?cooc"
    by (simp add: sp_TrainItemMatchingModel_def case_prod_unfold)
  show ?thesis
    by (rule exI [where x = "map ?row ?cooc"]) (simp only: table shape [symmetric] train)
qed

text \<open>
  Claim C4, on the code: the statement that computes the PMI comes after
  \<open>IF negative_sample_size > 0\<close>, whose variable the procedure does not declare. Every
  call fails at the \<open>IF\<close>; no call returns a table with a \<open>pmi\<close> column, so there is no
  final table whose PMI could be compared with the formula, and no \<open>cooc * pmi\<close> for the
  training query to read.
\<close>

theorem sp_ComputePMI_no_pmi_table:
  "sp_ComputePMI lg min_item_frequency max_group_size vw_item_groups \<noteq> Inr pmi_table"
  by (simp add: sp_ComputePMI_def Let_def variable_def sp_ComputePMI_scope_def)

section \<open>The negative-sample block and the parameters\<close>

lemma negative_samples_unresolved:
  "negative_samples (top_items n freq) = Inl (Unrecognized_name ''item'')"
  by (simp add: negative_samples_def top_items_def column_def)

lemma add_negative_samples_unresolved:
  "add_negative_samples n freq item_cooc = Inl (Unrecognized_name ''item'')"
  by (simp add: add_negative_samples_def negative_samples_unresolved)

text \<open>
  The merge by \<open>MAX(cooc)\<close> itself: a row of the table before the merge has a row for the
  same pair after it, with a count that is not smaller.
\<close>

lemma merge_max_ge:
  assumes "((a, b), c) \<in> set item_cooc"
  shows "\<exists>c'. ((a, b), c') \<in> set (merge_max item_cooc negatives) \<and> c \<le> c'"
proof -
  let ?rows = "filter (\<lambda>r. fst r = (a, b)) (item_cooc @ negatives)"
  from assms have "((a, b), c) \<in> set ?rows" by simp
  then have "c \<in> set (map snd ?rows)" by force
  then have "c \<le> Max (set (map snd ?rows))" by simp
  moreover have "((a, b), Max (set (map snd ?rows))) \<in> set (merge_max item_cooc negatives)"
    using assms unfolding merge_max_def in_group_by_iff by force
  ultimately show ?thesis by blast
qed

text \<open>
  Claim C6, on the code: the procedure declares \<open>min_item_frequency\<close>,
  \<open>max_group_size\<close> and \<open>total\<close>; the name \<open>negative_sample_size\<close> of its \<open>IF\<close> resolves
  to none of them, so every call fails there and no call merges negative samples.
\<close>

theorem sp_ComputePMI_negative_sample_size:
  "sp_ComputePMI lg min_item_frequency max_group_size vw_item_groups
     = Inl (Unrecognized_name ''negative_sample_size'')"
  by (simp add: sp_ComputePMI_def Let_def variable_def sp_ComputePMI_scope_def)

text \<open>
  Claim C9, as the code has it: no value of the configuration is checked. A
  \<open>min_item_frequency\<close> below 1 lets every item of the view pass the frequency filter; a
  \<open>max_group_size\<close> below 2 leaves no valid group and an empty \<open>valid_item_groups\<close>;
  \<open>dimensions\<close> is passed on to the trainer as \<open>NUM_FACTORS\<close> as it is.
\<close>

theorem configuration_not_validated:
  "(mn < 1 \<longrightarrow> fst ` set (valid_items mn vw) = fst ` set vw)
   \<and> (mx < 2 \<longrightarrow> valid_item_groups mn mx vw = [])
   \<and> NUM_FACTORS (fst (sp_TrainItemMatchingModel cast dimensions item_cooc)) = dimensions"
proof (intro conjI impI)
  assume "mn < 1"
  then have "i \<in> fst ` set vw \<Longrightarrow> mn \<le> frequency_in vw i" for i
    using frequency_in_pos [of i vw] by simp
  then show "fst ` set (valid_items mn vw) = fst ` set vw"
    using valid_items_keys [of _ mn vw] by blast
next
  assume "mx < 2"
  then have "g \<notin> fst ` set (valid_groups mn mx vw)" for g
    unfolding valid_groups_keys by linarith
  then show "valid_item_groups mn mx vw = []"
    by (simp add: valid_item_groups_def filter_empty_conv)
next
  show "NUM_FACTORS (fst (sp_TrainItemMatchingModel cast dimensions item_cooc)) = dimensions"
    by (simp add: sp_TrainItemMatchingModel_def)
qed

text \<open>The two filters at \<open>min_item_frequency = 0\<close> and \<open>max_group_size = 1\<close>.\<close>

theorem configuration_not_validated_witness:
  "fst ` set (valid_items 0 [(1::nat, 10::nat), (2, 10)]) = fst ` set [(1::nat, 10::nat), (2, 10)]
   \<and> valid_item_groups 0 1 [(1::nat, 10::nat), (2, 10)] = []"
proof -
  have mn: "(0::int) < 1" and mx: "(1::int) < 2"
    by simp_all
  note t = configuration_not_validated [where mn = 0 and mx = 1
      and vw = "[(1::nat, 10::nat), (2, 10)]" and cast = real_of_int and dimensions = 0
      and item_cooc = "[] :: ((nat \<times> nat) \<times> int \<times> real option) list"]
  from t mn have "fst ` set (valid_items 0 [(1::nat, 10::nat), (2, 10)])
      = fst ` set [(1::nat, 10::nat), (2, 10)]"
    by blast
  moreover from t mx have "valid_item_groups 0 1 [(1::nat, 10::nat), (2, 10)] = []"
    by blast
  ultimately show ?thesis by blast
qed

text \<open>
  Claim C9 as stated fails: \<open>min_item_frequency = 0\<close> is processed like any other value,
  \<open>max_group_size = 1\<close> yields an empty table, and \<open>dimensions = -5\<close> reaches the trainer.
\<close>

theorem configuration_not_validated_counterexample:
  "valid_item_groups 0 10 [(1::nat, 10::nat), (2, 10)] = [(1, 10), (2, 10)]
   \<and> valid_item_groups 1 1 [(1::nat, 10::nat), (2, 10)] = []
   \<and> NUM_FACTORS (fst (sp_TrainItemMatchingModel real_of_int (- 5)
        ([] :: ((nat \<times> nat) \<times> int \<times> real option) list))) = - 5"
  by (simp add: valid_item_groups_def valid_groups_def valid_items_def group_by_def
      count_rows_def sp_TrainItemMatchingModel_def)

section \<open>Building the embeddings\<close>

lemma list_add_at_factor:
  assumes "1 \<le> factor" and "factor \<le> int (length xs)"
  shows "list_add_at xs (factor - 1) w
           = Inr (xs[nat (factor - 1) := xs ! nat (factor - 1) + w])"
  using assms by (simp add: list_add_at_def)

lemma add_factor_weights_sums:
  assumes "\<forall>(factor, weight) \<in> set elements. 1 \<le> factor \<and> factor \<le> int (length e)"
  shows "\<exists>e'. add_factor_weights e elements = Inr e' \<and> length e' = length e \<and>
           (\<forall>j < length e. e' ! j =
              foldl (+) (e ! j)
                (map snd (filter (\<lambda>(factor, weight). factor = int j + 1) elements)))"
  using assms
proof (induction elements arbitrary: e)
  case Nil
  then show ?case by simp
next
  case (Cons el elements)
  obtain factor weight where el: "el = (factor, weight)" by (cases el)
  let ?e1 = "e[nat (factor - 1) := e ! nat (factor - 1) + weight]"
  from Cons.prems el have range: "1 \<le> factor" "factor \<le> int (length e)"
    by auto
  from Cons.prems have "\<forall>(factor, weight) \<in> set elements.
      1 \<le> factor \<and> factor \<le> int (length ?e1)"
    by auto
  from Cons.IH [OF this] obtain e' where
    run: "add_factor_weights ?e1 elements = Inr e'" and len: "length e' = length e" and
    sums: "\<forall>j < length e. e' ! j =
      foldl (+) (?e1 ! j) (map snd (filter (\<lambda>(factor, weight). factor = int j + 1) elements))"
    by auto
  have "add_factor_weights e (el # elements) = Inr e'"
    using run range by (simp add: el list_add_at_factor)
  moreover have "e' ! j =
      foldl (+) (e ! j)
        (map snd (filter (\<lambda>(factor, weight). factor = int j + 1) (el # elements)))"
    if j: "j < length e" for j
  proof (cases "factor = int j + 1")
    case True
    then have "nat (factor - 1) = j" by simp
    with j have "?e1 ! j = e ! j + weight" by simp
    with sums j True show ?thesis by (simp add: el)
  next
    case False
    with range have "nat (factor - 1) \<noteq> j" by auto
    then have "?e1 ! j = e ! j" by simp
    with sums j False show ?thesis by (simp add: el)
  qed
  ultimately show ?case using len by blast
qed

lemma add_factor_weights_append:
  "add_factor_weights e (xs @ ys) =
     (case add_factor_weights e xs of Inl err \<Rightarrow> Inl err | Inr e' \<Rightarrow> add_factor_weights e' ys)"
proof (induction xs arbitrary: e)
  case Nil
  then show ?case by simp
next
  case (Cons x xs)
  obtain factor weight where "x = (factor, weight)" by (cases x)
  with Cons show ?case by (simp split: sum.splits)
qed

lemma add_rows_concat:
  "add_rows e rows = add_factor_weights e (concat (map snd rows))"
  by (induction rows arbitrary: e) (simp_all add: add_factor_weights_append split: sum.splits)

lemma set_unique: "set (unique xs) = set xs"
  by (induction xs rule: unique.induct) auto

lemma distinct_unique: "distinct (unique xs)"
  by (induction xs rule: unique.induct) (auto simp: set_unique)

lemma item_embedding_sums:
  fixes results :: "('i \<times> (int \<times> 'w::{plus,zero}) list) list"
  assumes "\<forall>row \<in> set results. \<forall>(factor, weight) \<in> set (snd row). 1 \<le> factor \<and> factor \<le> 100"
  shows "\<exists>e. item_embedding results item = Inr e \<and> length e = 100 \<and>
           (\<forall>j < 100. e ! j =
              foldl (+) 0
                (map snd (filter (\<lambda>(factor, weight). factor = int j + 1)
                   (concat (map snd (filter (\<lambda>row. fst row = item) results))))))"
proof -
  let ?elements = "concat (map snd (filter (\<lambda>row. fst row = item) results))"
  let ?zeros = "replicate 100 (0::'w)"
  from assms have "\<forall>(factor, weight) \<in> set ?elements.
      1 \<le> factor \<and> factor \<le> int (length ?zeros)"
    by fastforce
  from add_factor_weights_sums [OF this] show ?thesis
    unfolding item_embedding_def add_rows_concat by auto
qed


text \<open>
  Claim C7: when every factor index lies in \<open>1..100\<close>, \<open>process_results\<close> returns a
  dictionary whose keys are the distinct features in order of first appearance; each
  vector has 100 positions, and position \<open>j\<close> holds the weights of the elements with
  factor \<open>j + 1\<close> of all rows of the item, added one after the other to \<open>0\<close>. A single
  row with the single element \<open>(1, w)\<close> yields \<open>[w, 0, ..., 0]\<close> (for a weight with
  \<open>0 + w = w\<close>, as \<open>0.0 + 2.0 = 2.0\<close>).
\<close>

theorem process_results_accumulates:
  fixes results :: "('i \<times> (int \<times> 'w::{plus,zero}) list) list"
  assumes "\<forall>row \<in> set results. \<forall>(factor, weight) \<in> set (snd row). 1 \<le> factor \<and> factor \<le> 100"
  shows "(\<exists>item_embeddings.
            process_results results = Inr item_embeddings
          \<and> map fst item_embeddings = unique (map fst results)
          \<and> (\<forall>(item, emebedding) \<in> set item_embeddings.
                length emebedding = 100
              \<and> (\<forall>j < 100. emebedding ! j =
                    foldl (+) 0
                      (map snd (filter (\<lambda>(factor, weight). factor = int j + 1)
                         (concat (map snd (filter (\<lambda>row. fst row = item) results))))))))
       \<and> (0 + w = w \<longrightarrow>
            process_results [(X, [(1, w)])] = Inr [(X, w # replicate 99 (0::'w))])"
proof
  let ?emb = "\<lambda>item. (item, projr (item_embedding results item))"
  let ?items = "unique (map fst results)"
  have good: "item_embedding results item = Inr (projr (item_embedding results item))
      \<and> length (projr (item_embedding results item)) = 100
      \<and> (\<forall>j < 100. projr (item_embedding results item) ! j =
            foldl (+) 0
              (map snd (filter (\<lambda>(factor, weight). factor = int j + 1)
                 (concat (map snd (filter (\<lambda>row. fst row = item) results))))))" for item
    using item_embedding_sums [OF assms, of item] by (elim exE conjE) simp
  have each: "(case item_embedding results item of
                 Inl e \<Rightarrow> Inl e | Inr emebedding \<Rightarrow> Inr (item, emebedding)) = Inr (?emb item)"
    for item
    using good [of item] by (cases "item_embedding results item") simp_all
  have run: "process_results results = Inr (map ?emb ?items)"
    unfolding process_results_def by (rule collect_map_cong) (rule each)
  have len: "length (projr (item_embedding results item)) = 100" for item
    using good [of item] by blast
  have val: "j < 100 \<Longrightarrow> projr (item_embedding results item) ! j =
            foldl (+) 0
              (map snd (filter (\<lambda>(factor, weight). factor = int j + 1)
                 (concat (map snd (filter (\<lambda>row. fst row = item) results)))))" for item j
    using good [of item] by blast
  have "\<forall>(item, emebedding) \<in> set (map ?emb ?items).
          length emebedding = 100
        \<and> (\<forall>j < 100. emebedding ! j =
              foldl (+) 0
                (map snd (filter (\<lambda>(factor, weight). factor = int j + 1)
                   (concat (map snd (filter (\<lambda>row. fst row = item) results))))))"
    by (simp add: len val)
  with run show "\<exists>item_embeddings.
            process_results results = Inr item_embeddings
          \<and> map fst item_embeddings = unique (map fst results)
          \<and> (\<forall>(item, emebedding) \<in> set item_embeddings.
                length emebedding = 100
              \<and> (\<forall>j < 100. emebedding ! j =
                    foldl (+) 0
                      (map snd (filter (\<lambda>(factor, weight). factor = int j + 1)
                         (concat (map snd (filter (\<lambda>row. fst row = item) results)))))))"
    by (intro exI [where x = "map ?emb ?items"]) (simp add: comp_def)
next
  have zeros: "replicate 100 (0::'w) = 0 # replicate 99 0"
    by (simp add: numeral_eq_Suc)
  show "0 + w = w \<longrightarrow>
          process_results [(X, [(1, w)])] = Inr [(X, w # replicate 99 (0::'w))]"
    by (simp add: process_results_def item_embedding_def list_add_at_def zeros)
qed

theorem process_results_accumulates_witness:
  "process_results [(''X'', [(1::int, 2::real)])] = Inr [(''X'', 2 # replicate 99 0)]
   \<and> (\<exists>item_embeddings.
         process_results [(''X'', [(1::int, 2::real), (3, 1)]), (''Y'', [(2, 5)]), (''X'', [(1, 4)])]
           = Inr item_embeddings
       \<and> map fst item_embeddings = [''X'', ''Y''])"
proof -
  let ?results = "[(''X'', [(1::int, 2::real), (3, 1)]), (''Y'', [(2, 5)]), (''X'', [(1, 4)])]"
  have r: "\<forall>row \<in> set ?results. \<forall>(factor, weight) \<in> set (snd row). 1 \<le> factor \<and> factor \<le> 100"
    by simp
  have w: "0 + (2::real) = 2"
    by simp
  have u: "unique (map fst ?results) = [''X'', ''Y'']"
    by simp
  note t = process_results_accumulates [OF r, of 2 "''X''", unfolded u]
  from t obtain item_embeddings where
    "process_results ?results = Inr item_embeddings" "map fst item_embeddings = [''X'', ''Y'']"
    by (elim conjE exE)
  moreover from t w have "process_results [(''X'', [(1::int, 2::real)])]
      = Inr [(''X'', 2 # replicate 99 0)]"
    by (elim conjE impE)
  ultimately show ?thesis
    by (intro conjI exI)
qed

section \<open>The descending stable sort\<close>

lemma insort_key_snoc:
  "f y \<le> f x \<Longrightarrow> insort_key f y (l @ [x]) = insort_key f y l @ [x]"
  by (induction l) auto

lemma insort_key_greatest:
  "\<forall>z \<in> set l. f z < f x \<Longrightarrow> insort_key f x l = l @ [x]"
  by (induction l) auto

lemma sort_key_greatest_last:
  assumes "\<forall>y \<in> set ys. f y \<le> f x" and "\<forall>z \<in> set zs. f z < f x"
  shows "sort_key f (ys @ x # zs) = sort_key f (ys @ zs) @ [x]"
  using assms(1)
proof (induction ys)
  case Nil
  have "\<forall>z \<in> set (sort_key f zs). f z < f x"
    using assms(2) by simp
  then show ?case
    by (simp add: insort_key_greatest)
next
  case (Cons y ys)
  then show ?case
    by (simp add: insort_key_snoc)
qed

lemma sorted_reverse_first:
  assumes "\<forall>y \<in> set pre. key y < key x" and "\<forall>z \<in> set post. key z \<le> key x"
  shows "sorted_reverse key (pre @ x # post) = x # sorted_reverse key (pre @ post)"
  using sort_key_greatest_last [of "rev post" key x "rev pre"] assms
  by (simp add: sorted_reverse_def)

lemma set_sorted_reverse: "set (sorted_reverse key xs) = set xs"
  by (simp add: sorted_reverse_def)

lemma sorted_reverse_descending: "sorted (rev (map key (sorted_reverse key xs)))"
  by (simp add: sorted_reverse_def rev_map)

section \<open>The similarity loop\<close>

lemma dict_get_nth:
  assumes "distinct (map fst d)" and "k < length d"
  shows "dict_get d (fst (d ! k)) = Inr (snd (d ! k))"
proof -
  from assms(2) have "(fst (d ! k), snd (d ! k)) \<in> set d" by simp
  with assms(1) have "map_of d (fst (d ! k)) = Some (snd (d ! k))" by simp
  then show ?thesis by (simp add: dict_get_def)
qed

lemma dict_get_mem:
  assumes "distinct (map fst d)" and "x \<in> set d"
  shows "dict_get d (fst x) = Inr (snd x)"
  using assms dict_get_nth [OF assms(1)] by (metis in_set_conv_nth)

lemma similar_items_sorted:
  assumes "distinct (map fst item_embeddings)"
    and "\<forall>i \<in> fst ` set item_embeddings. songs i = Some (title i)"
  shows "similar_items songs cosine round5 item_embeddings embedding1 =
           Inr (sorted_reverse snd
                  (map (similarity_entry title cosine round5 embedding1) item_embeddings))"
proof -
  have "collect
          (map (\<lambda>item2_Id.
                  case songs item2_Id of
                    None \<Rightarrow> Inl KeyError
                  | Some title2 \<Rightarrow>
                      (case dict_get item_embeddings item2_Id of
                         Inl e \<Rightarrow> Inl e
                       | Inr embedding2 \<Rightarrow>
                           Inr (title2, round5 (cosine embedding1 embedding2))))
             (map fst item_embeddings))
        = Inr (map (similarity_entry title cosine round5 embedding1) item_embeddings)"
    unfolding map_map
    by (rule collect_map_cong)
      (use assms in \<open>simp add: dict_get_mem similarity_entry_def\<close>)
  then show ?thesis
    by (simp add: similar_items_def)
qed

lemma explore_item_drops_first:
  assumes "distinct (map fst item_embeddings)"
    and "\<forall>i \<in> fst ` set item_embeddings. songs i = Some (title i)"
    and "idx1 < length item_embeddings"
  shows "explore_item songs cosine round5 item_embeddings idx1 =
           Inr (title (fst (item_embeddings ! idx1)),
                drop 1 (sorted_reverse snd
                  (map (similarity_entry title cosine round5 (snd (item_embeddings ! idx1)))
                     item_embeddings)))"
proof -
  from assms(3) have "item_embeddings ! idx1 \<in> set item_embeddings" by simp
  with assms(2) have "songs (fst (item_embeddings ! idx1)) = Some (title (fst (item_embeddings ! idx1)))"
    by simp
  with assms(3) show ?thesis
    by (simp add: explore_item_def dict_get_nth [OF assms(1,3)]
        similar_items_sorted [OF assms(1,2)])
qed

lemma explore_returns:
  assumes "distinct (map fst item_embeddings)"
    and "\<forall>i \<in> fst ` set item_embeddings. songs i = Some (title i)"
  shows "explore songs cosine round5 item_embeddings =
           Inr (map (\<lambda>idx1.
                  (title (fst (item_embeddings ! idx1)),
                   drop 1 (sorted_reverse snd
                     (map (similarity_entry title cosine round5 (snd (item_embeddings ! idx1)))
                        item_embeddings))))
                [0 ..< length item_embeddings - 1])"
  unfolding explore_def
  by (rule collect_map_cong) (simp add: explore_item_drops_first [OF assms])
lemma ranked_first:
  fixes entry :: "'c \<Rightarrow> 't \<times> 's::linorder"
  assumes "p < length cs"
    and "\<forall>x \<in> set (take p cs). snd (entry x) < snd (entry (cs ! p))"
    and "\<forall>x \<in> set (drop (Suc p) cs). snd (entry x) \<le> snd (entry (cs ! p))"
  shows "sorted_reverse snd (map entry cs) =
           entry (cs ! p) # sorted_reverse snd (map entry (take p cs @ drop (Suc p) cs))"
proof -
  have "map entry cs = map entry (take p cs) @ entry (cs ! p) # map entry (drop (Suc p) cs)"
    using assms(1) by (metis id_take_nth_drop list.simps(9) map_append)
  moreover have "sorted_reverse snd
      (map entry (take p cs) @ entry (cs ! p) # map entry (drop (Suc p) cs))
      = entry (cs ! p) # sorted_reverse snd (map entry (take p cs) @ map entry (drop (Suc p) cs))"
    by (rule sorted_reverse_first) (use assms(2,3) in auto)
  ultimately show ?thesis by simp
qed

lemma explore_nth:
  assumes "distinct (map fst item_embeddings)"
    and "\<forall>i \<in> fst ` set item_embeddings. songs i = Some (title i)"
    and "k < length item_embeddings - 1"
  shows "\<exists>out. explore songs cosine round5 item_embeddings = Inr out \<and> k < length out \<and>
           out ! k =
             (title (fst (item_embeddings ! k)),
              drop 1 (sorted_reverse snd
                (map (similarity_entry title cosine round5 (snd (item_embeddings ! k)))
                   item_embeddings)))"
  using assms(3) unfolding explore_returns [OF assms(1,2)] by simp

text \<open>
  Claim C8, as the code has it, for a query the loop visits (position \<open>k\<close>): the candidates
  are all the items, the query included, each with its rounded similarity; they are sorted
  by descending similarity, equal ones in candidate order, and the first is dropped. When
  no candidate is more similar to the query than the query itself and no candidate before
  it is as similar, what is printed is the other items ranked by descending similarity.
\<close>

theorem explore_ranks_others:
  fixes round5 :: "'f \<Rightarrow> 's::linorder"
  assumes "distinct (map fst item_embeddings)"
    and "\<forall>i \<in> fst ` set item_embeddings. songs i = Some (title i)"
    and "k < length item_embeddings - 1"
    and "\<forall>x \<in> set item_embeddings.
           round5 (cosine (snd (item_embeddings ! k)) (snd x))
             \<le> round5 (cosine (snd (item_embeddings ! k)) (snd (item_embeddings ! k)))"
    and "\<forall>x \<in> set (take k item_embeddings).
           round5 (cosine (snd (item_embeddings ! k)) (snd x))
             \<noteq> round5 (cosine (snd (item_embeddings ! k)) (snd (item_embeddings ! k)))"
  shows "\<exists>out. explore songs cosine round5 item_embeddings = Inr out \<and> k < length out
           \<and> out ! k =
               (title (fst (item_embeddings ! k)),
                sorted_reverse snd
                  (map (similarity_entry title cosine round5 (snd (item_embeddings ! k)))
                     (take k item_embeddings @ drop (Suc k) item_embeddings)))
           \<and> sorted (rev (map snd (snd (out ! k))))"
proof -
  let ?entry = "similarity_entry title cosine round5 (snd (item_embeddings ! k))"
  from assms(3) have k: "k < length item_embeddings" by simp
  have before: "\<forall>x \<in> set (take k item_embeddings).
      snd (?entry x) < snd (?entry (item_embeddings ! k))"
  proof
    fix x assume x: "x \<in> set (take k item_embeddings)"
    then have "x \<in> set item_embeddings" by (rule in_set_takeD)
    with assms(4) have "round5 (cosine (snd (item_embeddings ! k)) (snd x))
        \<le> round5 (cosine (snd (item_embeddings ! k)) (snd (item_embeddings ! k)))"
      by blast
    moreover from assms(5) x have "round5 (cosine (snd (item_embeddings ! k)) (snd x))
        \<noteq> round5 (cosine (snd (item_embeddings ! k)) (snd (item_embeddings ! k)))"
      by blast
    ultimately show "snd (?entry x) < snd (?entry (item_embeddings ! k))"
      by (simp add: similarity_entry_def)
  qed
  have after: "\<forall>x \<in> set (drop (Suc k) item_embeddings).
      snd (?entry x) \<le> snd (?entry (item_embeddings ! k))"
    using assms(4) by (auto simp: similarity_entry_def dest!: in_set_dropD)
  have "drop 1 (sorted_reverse snd (map ?entry item_embeddings)) =
        sorted_reverse snd (map ?entry (take k item_embeddings @ drop (Suc k) item_embeddings))"
    unfolding ranked_first [of k item_embeddings ?entry, OF k before after] by simp
  with explore_nth [OF assms(1,2,3), of cosine round5] show ?thesis
    by (auto simp: sorted_reverse_descending)
qed

text \<open>
  Claim C10, as the code has it, for a query the loop visits (position \<open>k\<close>): the
  candidates, the query included, are sorted by descending similarity with equal ones in
  candidate order, and the first is dropped. When another item at a position \<open>j\<close> before
  \<open>k\<close> is as similar to the query as the query itself, and none is more similar, the
  dropped element is the earliest such item, at a position \<open>j0 \<le> j\<close> (so it is the item
  at \<open>j\<close> when no item before \<open>j\<close> ties), and the entry of the query is among the
  printed ones.
\<close>

theorem explore_tie_keeps_query:
  fixes round5 :: "'f \<Rightarrow> 's::linorder"
  assumes "distinct (map fst item_embeddings)"
    and "\<forall>i \<in> fst ` set item_embeddings. songs i = Some (title i)"
    and "k < length item_embeddings - 1"
    and "j < k"
    and "round5 (cosine (snd (item_embeddings ! k)) (snd (item_embeddings ! j)))
           = round5 (cosine (snd (item_embeddings ! k)) (snd (item_embeddings ! k)))"
    and "\<forall>x \<in> set item_embeddings.
           round5 (cosine (snd (item_embeddings ! k)) (snd x))
             \<le> round5 (cosine (snd (item_embeddings ! k)) (snd (item_embeddings ! k)))"
  shows "\<exists>j0 rest out.
           j0 \<le> j
         \<and> round5 (cosine (snd (item_embeddings ! k)) (snd (item_embeddings ! j0)))
             = round5 (cosine (snd (item_embeddings ! k)) (snd (item_embeddings ! k)))
         \<and> (\<forall>i < j0. round5 (cosine (snd (item_embeddings ! k)) (snd (item_embeddings ! i)))
               \<noteq> round5 (cosine (snd (item_embeddings ! k)) (snd (item_embeddings ! k))))
         \<and> similar_items songs cosine round5 item_embeddings (snd (item_embeddings ! k))
             = Inr (similarity_entry title cosine round5 (snd (item_embeddings ! k))
                      (item_embeddings ! j0) # rest)
         \<and> similarity_entry title cosine round5 (snd (item_embeddings ! k))
               (item_embeddings ! k) \<in> set rest
         \<and> explore songs cosine round5 item_embeddings = Inr out \<and> k < length out
         \<and> out ! k = (title (fst (item_embeddings ! k)), rest)"
proof -
  let ?e = "snd (item_embeddings ! k)"
  let ?entry = "similarity_entry title cosine round5 ?e"
  let ?tie = "\<lambda>i. round5 (cosine ?e (snd (item_embeddings ! i))) = round5 (cosine ?e ?e)"
  define j0 where "j0 = (LEAST i. ?tie i)"
  have tie0: "?tie j0"
    unfolding j0_def using assms(5) by (rule LeastI)
  have le: "j0 \<le> j"
    unfolding j0_def using assms(5) by (rule Least_le)
  have least: "\<forall>i < j0. \<not> ?tie i"
    unfolding j0_def using not_less_Least by blast
  from assms(3,4) le have k: "k < length item_embeddings" and j0k: "j0 < k"
    and j0: "j0 < length item_embeddings"
    by simp_all
  let ?others = "take j0 item_embeddings @ drop (Suc j0) item_embeddings"
  let ?rest = "sorted_reverse snd (map ?entry ?others)"
  have before: "\<forall>x \<in> set (take j0 item_embeddings).
      snd (?entry x) < snd (?entry (item_embeddings ! j0))"
  proof
    fix x assume "x \<in> set (take j0 item_embeddings)"
    then obtain i where i: "i < j0" and x: "x = item_embeddings ! i"
      using j0 by (auto simp: in_set_conv_nth)
    with j0 have "x \<in> set item_embeddings" by simp
    with assms(6) have "round5 (cosine ?e (snd x)) \<le> round5 (cosine ?e ?e)" by blast
    moreover from least i x have "round5 (cosine ?e (snd x)) \<noteq> round5 (cosine ?e ?e)" by blast
    ultimately show "snd (?entry x) < snd (?entry (item_embeddings ! j0))"
      using tie0 by (simp add: similarity_entry_def)
  qed
  have after: "\<forall>x \<in> set (drop (Suc j0) item_embeddings).
      snd (?entry x) \<le> snd (?entry (item_embeddings ! j0))"
    using assms(6) tie0 by (auto simp: similarity_entry_def dest!: in_set_dropD)
  have ranked: "sorted_reverse snd (map ?entry item_embeddings) =
      ?entry (item_embeddings ! j0) # ?rest"
    by (rule ranked_first [OF j0 before after])
  have "item_embeddings ! k \<in> set (drop (Suc j0) item_embeddings)"
    using k j0k by (auto simp: in_set_conv_nth intro!: exI [where x = "k - Suc j0"])
  then have query: "?entry (item_embeddings ! k) \<in> set ?rest"
    by (simp add: set_sorted_reverse)
  have sim: "similar_items songs cosine round5 item_embeddings ?e =
      Inr (?entry (item_embeddings ! j0) # ?rest)"
    by (simp add: similar_items_sorted [OF assms(1,2)] ranked)
  from explore_nth [OF assms(1,2,3), of cosine round5] obtain out where
    "explore songs cosine round5 item_embeddings = Inr out" "k < length out"
    "out ! k = (title (fst (item_embeddings ! k)), ?rest)"
    unfolding ranked by auto
  with le tie0 least sim query show ?thesis
    by blast
qed
text \<open>
  Three items, the first two with the same embedding. The loop visits the first two. For
  the first the printed list is that of the others.
\<close>

theorem explore_ranks_others_witness:
  "\<exists>out. explore (map_of [(''a'', ''A''), (''b'', ''B''), (''c'', ''C'')]) inner_product id
            [(''a'', [1, 0]), (''b'', [1, 0]), (''c'', [0, 1])] = Inr out
         \<and> 0 < length out \<and> out ! 0 = (''A'', [(''B'', 1), (''C'', 0)])"
proof -
  let ?songs = "map_of [(''a'', ''A''), (''b'', ''B''), (''c'', ''C'')]"
  let ?embs = "[(''a'', [1, 0]), (''b'', [1, 0]), (''c'', [0, 1::int])]"
  have h: "distinct (map fst ?embs)"
    "\<forall>i \<in> fst ` set ?embs. ?songs i = Some ((the \<circ> ?songs) i)"
    "0 < length ?embs - 1"
    "\<forall>x \<in> set ?embs. id (inner_product (snd (?embs ! 0)) (snd x))
           \<le> id (inner_product (snd (?embs ! 0)) (snd (?embs ! 0)))"
    "\<forall>x \<in> set (take 0 ?embs). id (inner_product (snd (?embs ! 0)) (snd x))
           \<noteq> id (inner_product (snd (?embs ! 0)) (snd (?embs ! 0)))"
    by (simp_all add: inner_product_def)
  from explore_ranks_others [of ?embs ?songs "the \<circ> ?songs" 0 id inner_product, OF h]
  show ?thesis
    by (auto simp: sorted_reverse_def similarity_entry_def inner_product_def)
qed

text \<open>
  Claim C8 as stated fails at the second item: \<open>a\<close> is as similar to \<open>b\<close> as \<open>b\<close> itself
  and precedes it, so the list printed for \<open>B\<close> holds \<open>B\<close> and lacks \<open>A\<close>.
\<close>

theorem explore_ranks_others_counterexample:
  "explore (map_of [(''a'', ''A''), (''b'', ''B''), (''c'', ''C'')]) inner_product id
     [(''a'', [1, 0]), (''b'', [1, 0]), (''c'', [0, 1])]
   = Inr [(''A'', [(''B'', 1), (''C'', 0)]), (''B'', [(''B'', 1), (''C'', 0)])]"
  by code_simp

text \<open>
  The same three items, for the second: the first is dropped, the second is printed in
  its own list.
\<close>

theorem explore_tie_keeps_query_witness:
  "\<exists>rest out.
      similar_items (map_of [(''a'', ''A''), (''b'', ''B''), (''c'', ''C'')]) inner_product id
        [(''a'', [1, 0]), (''b'', [1, 0]), (''c'', [0, 1])] [1, 0] = Inr ((''A'', 1) # rest)
    \<and> (''B'', 1) \<in> set rest
    \<and> explore (map_of [(''a'', ''A''), (''b'', ''B''), (''c'', ''C'')]) inner_product id
        [(''a'', [1, 0]), (''b'', [1, 0]), (''c'', [0, 1])] = Inr out
    \<and> out ! 1 = (''B'', rest)"
proof -
  let ?songs = "map_of [(''a'', ''A''), (''b'', ''B''), (''c'', ''C'')]"
  let ?embs = "[(''a'', [1, 0]), (''b'', [1, 0]), (''c'', [0, 1::int])]"
  have h: "distinct (map fst ?embs)"
    "\<forall>i \<in> fst ` set ?embs. ?songs i = Some ((the \<circ> ?songs) i)"
    "1 < length ?embs - 1"
    "(0::nat) < 1"
    "id (inner_product (snd (?embs ! 1)) (snd (?embs ! 0)))
           = id (inner_product (snd (?embs ! 1)) (snd (?embs ! 1)))"
    "\<forall>x \<in> set ?embs. id (inner_product (snd (?embs ! 1)) (snd x))
           \<le> id (inner_product (snd (?embs ! 1)) (snd (?embs ! 1)))"
    by (simp_all add: inner_product_def)
  from explore_tie_keeps_query [of ?embs ?songs "the \<circ> ?songs" 1 0 id inner_product, OF h]
  show ?thesis
    by (auto simp: similarity_entry_def inner_product_def)
qed

text \<open>
  Claim C10 as stated fails: \<open>a\<close>, \<open>b\<close> and \<open>c\<close> have the same embedding and the query
  is \<open>c\<close>. The item \<open>b\<close> is as similar to \<open>c\<close> as \<open>c\<close> itself and precedes it, yet the
  dropped element is \<open>A\<close>, and \<open>B\<close> is printed in the list of \<open>C\<close>.
\<close>

theorem explore_tie_keeps_query_counterexample:
  "similar_items (map_of [(''a'', ''A''), (''b'', ''B''), (''c'', ''C''), (''d'', ''D'')])
     inner_product id
     [(''a'', [1, 0]), (''b'', [1, 0]), (''c'', [1, 0]), (''d'', [0, 1])] [1, 0]
   = Inr [(''A'', 1), (''B'', 1), (''C'', 1), (''D'', 0)]
   \<and> explore (map_of [(''a'', ''A''), (''b'', ''B''), (''c'', ''C''), (''d'', ''D'')])
       inner_product id
       [(''a'', [1, 0]), (''b'', [1, 0]), (''c'', [1, 0]), (''d'', [0, 1])]
     = Inr [(''A'', [(''B'', 1), (''C'', 1), (''D'', 0)]),
            (''B'', [(''B'', 1), (''C'', 1), (''D'', 0)]),
            (''C'', [(''B'', 1), (''C'', 1), (''D'', 0)])]"
  by code_simp

end
